theory Spec2Isabelle
  imports Complex_Main "HOL-Library.Word"
begin

section \<open>C doubles, without rounding\<close>

text \<open>
  The programs compute in C \<^verbatim>\<open>double\<close>. The embedding keeps the value of every finite
  double as a real number and folds the three non-finite results of IEEE arithmetic
  (+Inf, -Inf and NaN) into one value \<open>NonFinite\<close>. For the operations these programs
  apply to a double (\<^verbatim>\<open>+\<close>, \<^verbatim>\<open>-\<close>, \<^verbatim>\<open>*\<close>, \<^verbatim>\<open>sqrt\<close>, \<^verbatim>\<open>log\<close>, \<^verbatim>\<open>cos\<close>) a
  non-finite operand always gives a non-finite result. Every division of the sources
  has a finite numerator and a finite denominator.

  What the embedding leaves out: a result is never rounded and never overflows to
  infinity, so \<open>Fin a + Fin b\<close> is the exact sum where the machine has the nearest
  double. A statement that equates two runs of the same operations holds of the
  doubles as it holds here. A statement that equates two different ways of computing
  a number (only the time column, below) holds of the doubles up to rounding.
\<close>

datatype double = Fin real | NonFinite

instantiation double :: "{plus, minus, times}"
begin

fun plus_double :: "double \<Rightarrow> double \<Rightarrow> double" where
  "plus_double (Fin a) (Fin b) = Fin (a + b)"
| "plus_double _ _ = NonFinite"

fun minus_double :: "double \<Rightarrow> double \<Rightarrow> double" where
  "minus_double (Fin a) (Fin b) = Fin (a - b)"
| "minus_double _ _ = NonFinite"

fun times_double :: "double \<Rightarrow> double \<Rightarrow> double" where
  "times_double (Fin a) (Fin b) = Fin (a * b)"
| "times_double _ _ = NonFinite"

instance ..

end

text \<open>\<^verbatim>\<open>a / b\<close> on finite doubles: Inf or NaN when \<open>b\<close> is zero.\<close>

definition c_div :: "real \<Rightarrow> real \<Rightarrow> double" where
  "c_div a b = (if b = 0 then NonFinite else Fin (a / b))"

text \<open>\<^verbatim>\<open>sqrt\<close> of math.h: NaN on a negative argument.\<close>

fun c_sqrt :: "double \<Rightarrow> double" where
  "c_sqrt (Fin a) = (if a < 0 then NonFinite else Fin (sqrt a))"
| "c_sqrt NonFinite = NonFinite"

text \<open>\<^verbatim>\<open>log\<close> of math.h: -Inf at zero (pole error), NaN below (domain error).\<close>

fun c_log :: "double \<Rightarrow> double" where
  "c_log (Fin a) = (if a \<le> 0 then NonFinite else Fin (ln a))"
| "c_log NonFinite = NonFinite"

fun c_cos :: "double \<Rightarrow> double" where
  "c_cos (Fin a) = Fin (cos a)"
| "c_cos NonFinite = NonFinite"

section \<open>The C library the programs call\<close>

text \<open>
  \<^verbatim>\<open>RAND_MAX\<close>, \<^verbatim>\<open>srand\<close>, \<^verbatim>\<open>rand\<close>, \<^verbatim>\<open>atoi\<close> and \<^verbatim>\<open>atof\<close> belong to the C library,
  not to the repository: the programs are embedded over any library \<open>L\<close>. The state
  of the uniform source is a value of type \<open>'s\<close>; \<open>srand\<close> starts a new sequence
  from its seed alone, and \<open>rand\<close> returns the next raw draw with the advanced state.
  \<open>atof\<close> is taken to return a finite double.
\<close>

record 's libc =
  RAND_MAX :: int
  srand :: "32 word \<Rightarrow> 's"
  rand :: "'s \<Rightarrow> int \<times> 's"
  atoi :: "string \<Rightarrow> int"
  atof :: "string \<Rightarrow> real"

text \<open>
  ISO C 7.22.2.2: a program that calls \<^verbatim>\<open>rand\<close> before any \<^verbatim>\<open>srand\<close> gets the
  sequence of \<^verbatim>\<open>srand(1)\<close>.
\<close>

definition unseeded :: "'s libc \<Rightarrow> 's" where
  "unseeded L = srand L 1"

text \<open>\<^verbatim>\<open>(unsigned int)v\<close> for a signed \<open>v\<close>: reduction modulo \<open>2 ^ 32\<close>.\<close>

definition to_unsigned :: "int \<Rightarrow> 32 word" where
  "to_unsigned v = word_of_int v"

section \<open>The normal variate generator\<close>

text \<open>
  \<^verbatim>\<open>(rand() + 1.0) / (RAND_MAX + 2.0)\<close>: both sums are computed in double, so neither
  can overflow an \<^verbatim>\<open>int\<close>.
\<close>

definition uniform01 :: "int \<Rightarrow> int \<Rightarrow> double" where
  "uniform01 rand_max raw = c_div (real_of_int raw + 1) (real_of_int rand_max + 2)"

text \<open>
  \<^verbatim>\<open>normal_rand\<close> (the same body in normal_rand.c, report1_haruki.c, brownian_motion.c
  and langevin.c). \<^verbatim>\<open>M_PI\<close> is read as \<open>pi\<close>.
\<close>

definition normal_rand :: "'s libc \<Rightarrow> 's \<Rightarrow> double \<times> 's" where
  "normal_rand L g =
     (let (r1, g1) = rand L g;
          u1 = uniform01 (RAND_MAX L) r1;
          (r2, g2) = rand L g1;
          u2 = uniform01 (RAND_MAX L) r2
      in (c_sqrt (Fin (- 2) * c_log u1) * c_cos (Fin 2 * Fin pi * u2), g2))"

section \<open>Output and particle state\<close>

text \<open>
  The particle state is the tuple \<open>(t, x, y, vx, vy)\<close>. A program's standard output
  is a list of lines: the header \<^verbatim>\<open># t x y vx vy\<close>, a data row printed with one of
  the two formats the sources use, or one sample of the generator.
\<close>

type_synonym state = "double \<times> double \<times> double \<times> double \<times> double"

datatype format = F6 | E15

datatype line = Header | Row format state | Sample double

definition origin :: state where
  "origin = (Fin 0, Fin 0, Fin 0, Fin 0, Fin 0)"

fun time_of :: "state \<Rightarrow> double" where
  "time_of (t, rx, ry, vx, vy) = t"

fun pos_x :: "state \<Rightarrow> double" where
  "pos_x (t, rx, ry, vx, vy) = rx"

fun pos_y :: "state \<Rightarrow> double" where
  "pos_y (t, rx, ry, vx, vy) = ry"

fun vel_x :: "state \<Rightarrow> double" where
  "vel_x (t, rx, ry, vx, vy) = vx"

fun vel_y :: "state \<Rightarrow> double" where
  "vel_y (t, rx, ry, vx, vy) = vy"

text \<open>The state without its time: the four variables of the loop of langevin.c.\<close>

fun particle_of :: "state \<Rightarrow> double \<times> double \<times> double \<times> double" where
  "particle_of (t, rx, ry, vx, vy) = (rx, ry, vx, vy)"

text \<open>The states of the data rows of an output, in order.\<close>

fun rows :: "line list \<Rightarrow> state list" where
  "rows [] = []"
| "rows (Row f s # ls) = s # rows ls"
| "rows (l # ls) = rows ls"

section \<open>report1\_haruki.c and brownian\_motion.c\<close>

text \<open>
  One pass through the loop body of \<^verbatim>\<open>run_brownian_motion\<close> (report1_haruki.c, lines
  58 to 64; brownian_motion.c, lines 91 to 104, has the same statements): velocities
  first, then positions from the new velocities, then the time.
\<close>

fun brownian_step :: "double \<Rightarrow> double \<Rightarrow> real \<Rightarrow> state \<Rightarrow> double \<Rightarrow> double \<Rightarrow> state" where
  "brownian_step coeff1 coeff2 dt (t, rx, ry, vx, vy) eta_x eta_y =
     (let vx = vx - coeff1 * vx * Fin dt + coeff2 * c_sqrt (Fin dt) * eta_x;
          vy = vy - coeff1 * vy * Fin dt + coeff2 * c_sqrt (Fin dt) * eta_y;
          rx = rx + vx * Fin dt;
          ry = ry + vy * Fin dt;
          t = t + Fin dt
      in (t, rx, ry, vx, vy))"

text \<open>
  The loop \<^verbatim>\<open>for (int n = 0; n < n_steps; n++)\<close>: two variates, one step, one row.
\<close>

function brownian_loop ::
  "'s libc \<Rightarrow> double \<Rightarrow> double \<Rightarrow> real \<Rightarrow> int \<Rightarrow> int \<Rightarrow> 's \<Rightarrow> state \<Rightarrow> line list" where
  "brownian_loop L coeff1 coeff2 dt n_steps n g s =
     (if n < n_steps then
        (let (eta_x, g1) = normal_rand L g;
             (eta_y, g2) = normal_rand L g1;
             s' = brownian_step coeff1 coeff2 dt s eta_x eta_y
         in Row E15 s' # brownian_loop L coeff1 coeff2 dt n_steps (n + 1) g2 s')
      else [])"
  by pat_completeness auto
termination
  by (relation "measure (\<lambda>(L, coeff1, coeff2, dt, n_steps, n, g, s). nat (n_steps - n))") auto

declare brownian_loop.simps [simp del]

text \<open>
  \<^verbatim>\<open>run_brownian_motion\<close> of report1_haruki.c. \<open>now\<close> is the value of
  \<^verbatim>\<open>time(NULL)\<close>. The result is the standard output and the returned status.
\<close>

definition run_brownian_motion ::
  "'s libc \<Rightarrow> int \<Rightarrow> real \<Rightarrow> real \<Rightarrow> real \<Rightarrow> real \<Rightarrow> int \<Rightarrow> line list \<times> int" where
  "run_brownian_motion L now T m gamma dt n_steps =
     (let kB = 1;
          t = Fin 0; rx = Fin 0; ry = Fin 0; vx = Fin 0; vy = Fin 0;
          coeff1 = c_div gamma m;
          coeff2 = c_sqrt (c_div (2 * gamma * kB * T) m);
          g = srand L (to_unsigned now)
      in (Header # Row E15 (t, rx, ry, vx, vy)
            # brownian_loop L coeff1 coeff2 dt n_steps 0 g (t, rx, ry, vx, vy), 0))"

text \<open>The loop of \<^verbatim>\<open>run_normal_rand\<close> and of the main function of normal_rand.c.\<close>

function sample_loop :: "'s libc \<Rightarrow> int \<Rightarrow> int \<Rightarrow> 's \<Rightarrow> line list" where
  "sample_loop L n_samples i g =
     (if i < n_samples then
        (let (z, g1) = normal_rand L g
         in Sample z # sample_loop L n_samples (i + 1) g1)
      else [])"
  by pat_completeness auto
termination
  by (relation "measure (\<lambda>(L, n_samples, i, g). nat (n_samples - i))") auto

declare sample_loop.simps [simp del]

definition run_normal_rand :: "'s libc \<Rightarrow> int \<Rightarrow> int \<Rightarrow> line list \<times> int" where
  "run_normal_rand L now n_samples =
     (let g = srand L (to_unsigned now) in (sample_loop L n_samples 0 g, 0))"

text \<open>
  The main function of report1_haruki.c. \<open>argv\<close> is the argument vector, so
  \<^verbatim>\<open>argc\<close> is its length; every \<^verbatim>\<open>argv[i]\<close> the function reads is guarded by
  \<^verbatim>\<open>argc >= i + 1\<close>.
\<close>

definition report1_main :: "'s libc \<Rightarrow> int \<Rightarrow> string list \<Rightarrow> line list \<times> int" where
  "report1_main L now argv =
     (let argc = int (length argv) in
      if argc \<ge> 2 \<and> argv ! 1 = ''normal_rand'' then
        (let n_samples = (if argc \<ge> 3 then atoi L (argv ! 2) else 1000)
         in run_normal_rand L now n_samples)
      else
        (let T = (if argc \<ge> 2 then atof L (argv ! 1) else 1);
             m = (if argc \<ge> 3 then atof L (argv ! 2) else 1);
             gamma = (if argc \<ge> 4 then atof L (argv ! 3) else 1);
             dt = (if argc \<ge> 5 then atof L (argv ! 4) else 0.01);
             n_steps = (if argc \<ge> 6 then atoi L (argv ! 5) else 1000)
         in run_brownian_motion L now T m gamma dt n_steps))"

text \<open>
  The main function of brownian_motion.c: the defaults, the five guarded
  overrides, then the statements of \<^verbatim>\<open>run_brownian_motion\<close> inline.
\<close>

definition brownian_motion_main :: "'s libc \<Rightarrow> int \<Rightarrow> string list \<Rightarrow> line list \<times> int" where
  "brownian_motion_main L now argv =
     (let argc = int (length argv);
          gamma = 1; kB = 1; T = 1; m = 1; dt = 0.01; n_steps = 1000;
          T = (if argc \<ge> 2 then atof L (argv ! 1) else T);
          m = (if argc \<ge> 3 then atof L (argv ! 2) else m);
          gamma = (if argc \<ge> 4 then atof L (argv ! 3) else gamma);
          dt = (if argc \<ge> 5 then atof L (argv ! 4) else dt);
          n_steps = (if argc \<ge> 6 then atoi L (argv ! 5) else n_steps);
          t = Fin 0; rx = Fin 0; ry = Fin 0; vx = Fin 0; vy = Fin 0;
          coeff1 = c_div gamma m;
          coeff2 = c_sqrt (c_div (2 * gamma * kB * T) m);
          g = srand L (to_unsigned now)
      in (Header # Row E15 (t, rx, ry, vx, vy)
            # brownian_loop L coeff1 coeff2 dt n_steps 0 g (t, rx, ry, vx, vy), 0))"

section \<open>langevin.c\<close>

text \<open>
  The loop body of langevin.c, lines 45 to 50, on the variables \<open>(x, y, vx, vy)\<close>:
  here \<open>coeff2\<close> already holds the factor \<^verbatim>\<open>sqrt(dt)\<close>.
\<close>

type_synonym particle = "double \<times> double \<times> double \<times> double"

fun langevin_step :: "double \<Rightarrow> double \<Rightarrow> real \<Rightarrow> particle \<Rightarrow> double \<Rightarrow> double \<Rightarrow> particle" where
  "langevin_step coeff1 coeff2 dt (x, y, vx, vy) eta_x eta_y =
     (let vx = vx - coeff1 * vx * Fin dt + coeff2 * eta_x;
          vy = vy - coeff1 * vy * Fin dt + coeff2 * eta_y;
          x = x + vx * Fin dt;
          y = y + vy * Fin dt
      in (x, y, vx, vy))"

text \<open>The row of step \<open>n\<close>: the time is \<^verbatim>\<open>(n + 1) * dt\<close>, computed afresh.\<close>

definition langevin_row :: "real \<Rightarrow> int \<Rightarrow> particle \<Rightarrow> state" where
  "langevin_row dt n p = (case p of (x, y, vx, vy) \<Rightarrow>
     (Fin (real_of_int (n + 1)) * Fin dt, x, y, vx, vy))"

function langevin_loop ::
  "'s libc \<Rightarrow> double \<Rightarrow> double \<Rightarrow> real \<Rightarrow> int \<Rightarrow> int \<Rightarrow> 's \<Rightarrow> particle \<Rightarrow> line list" where
  "langevin_loop L coeff1 coeff2 dt n_steps n g p =
     (if n < n_steps then
        (let (eta_x, g1) = normal_rand L g;
             (eta_y, g2) = normal_rand L g1;
             p' = langevin_step coeff1 coeff2 dt p eta_x eta_y
         in Row F6 (langevin_row dt n p') # langevin_loop L coeff1 coeff2 dt n_steps (n + 1) g2 p')
      else [])"
  by pat_completeness auto
termination
  by (relation "measure (\<lambda>(L, coeff1, coeff2, dt, n_steps, n, g, p). nat (n_steps - n))") auto

declare langevin_loop.simps [simp del]

text \<open>
  Line 37 of langevin.c: the seed is \<^verbatim>\<open>atoi(argv[1])\<close> when there is an argument and
  0 otherwise. Line 38: \<^verbatim>\<open>srand\<close> is called only for a seed other than 0, so the
  generator otherwise stays as the process started it.
\<close>

definition langevin_seed :: "'s libc \<Rightarrow> string list \<Rightarrow> int" where
  "langevin_seed L argv = (if int (length argv) > 1 then atoi L (argv ! 1) else 0)"

definition seed_state :: "'s libc \<Rightarrow> int \<Rightarrow> 's" where
  "seed_state L seed = (if seed \<noteq> 0 then srand L (to_unsigned seed) else unseeded L)"

text \<open>
  The body of the main function of langevin.c below its constants, as a function of
  them: the program fixes \<open>gamma = kB = T = m = 1\<close>, \<open>dt = 0.01\<close> and
  \<open>n_steps = 1000\<close>.
\<close>

definition langevin_run ::
  "'s libc \<Rightarrow> real \<Rightarrow> real \<Rightarrow> real \<Rightarrow> real \<Rightarrow> real \<Rightarrow> int \<Rightarrow> string list \<Rightarrow> line list \<times> int" where
  "langevin_run L gamma kB T m dt n_steps argv =
     (let coeff1 = c_div gamma m;
          coeff2 = c_sqrt (c_div (2 * gamma * kB * T) m) * c_sqrt (Fin dt);
          x = Fin 0; y = Fin 0;
          vx = Fin 0; vy = Fin 0;
          seed = langevin_seed L argv;
          g = seed_state L seed
      in (Header # Row F6 (Fin 0, x, y, vx, vy)
            # langevin_loop L coeff1 coeff2 dt n_steps 0 g (x, y, vx, vy), 0))"

definition langevin_main :: "'s libc \<Rightarrow> string list \<Rightarrow> line list \<times> int" where
  "langevin_main L argv = langevin_run L 1 1 1 1 0.01 1000 argv"

section \<open>normal\_rand.c\<close>

text \<open>
  The main function of normal_rand.c reads \<^verbatim>\<open>argv[1]\<close> with no test of \<^verbatim>\<open>argc\<close>.
  The array \<^verbatim>\<open>argv\<close> has \<^verbatim>\<open>argc + 1\<close> entries, the last one a null pointer (ISO C
  5.1.2.2.1); \<^verbatim>\<open>atoi\<close> dereferences its argument.
\<close>

datatype fault = Null_dereference | Out_of_bounds_read

datatype pointer = Null | Str string

definition argv_read :: "string list \<Rightarrow> nat \<Rightarrow> fault + pointer" where
  "argv_read argv i =
     (if i < length argv then Inr (Str (argv ! i))
      else if i = length argv then Inr Null
      else Inl Out_of_bounds_read)"

definition atoi_at :: "'s libc \<Rightarrow> pointer \<Rightarrow> fault + int" where
  "atoi_at L p = (case p of Null \<Rightarrow> Inl Null_dereference | Str s \<Rightarrow> Inr (atoi L s))"

definition normal_rand_main :: "'s libc \<Rightarrow> int \<Rightarrow> string list \<Rightarrow> fault + line list \<times> int" where
  "normal_rand_main L now argv =
     (case argv_read argv 1 of
        Inl f \<Rightarrow> Inl f
      | Inr p \<Rightarrow>
          (case atoi_at L p of
             Inl f \<Rightarrow> Inl f
           | Inr n_samples \<Rightarrow>
               (let g = srand L (to_unsigned now)
                in Inr (sample_loop L n_samples 0 g, 0))))"

section \<open>A concrete C library\<close>

text \<open>
  One library to run the programs on: the sample \<^verbatim>\<open>rand\<close> and \<^verbatim>\<open>srand\<close> of ISO C
  7.22.2.2 (with a 32-bit \<^verbatim>\<open>next\<close>), and \<^verbatim>\<open>atoi\<close> and \<^verbatim>\<open>atof\<close> on decimal
  literals: leading white space, an optional sign, digits, and for \<^verbatim>\<open>atof\<close> an
  optional fraction and exponent. Both return 0 when no digits are found.
\<close>

definition c_isspace :: "char \<Rightarrow> bool" where
  "c_isspace c = (c \<in> set [CHR '' '', CHR 0x09, CHR 0x0A, CHR 0x0B, CHR 0x0C, CHR 0x0D])"

definition c_isdigit :: "char \<Rightarrow> bool" where
  "c_isdigit c = (c \<in> set ''0123456789'')"

fun decimal :: "int \<Rightarrow> string \<Rightarrow> int" where
  "decimal acc [] = acc"
| "decimal acc (c # cs) =
     (if c_isdigit c then decimal (10 * acc + (int (of_char c) - 48)) cs else acc)"

definition strip_sign :: "string \<Rightarrow> bool \<times> string" where
  "strip_sign s = (case s of [] \<Rightarrow> (False, s) | c # r \<Rightarrow>
     if c = CHR ''-'' then (True, r) else if c = CHR ''+'' then (False, r) else (False, s))"

definition iso_atoi :: "string \<Rightarrow> int" where
  "iso_atoi s = (let (neg, r) = strip_sign (dropWhile c_isspace s); v = decimal 0 r
                 in if neg then - v else v)"

definition iso_atof :: "string \<Rightarrow> real" where
  "iso_atof s =
     (let (neg, r) = strip_sign (dropWhile c_isspace s);
          ip = takeWhile c_isdigit r;
          r1 = dropWhile c_isdigit r;
          fp = (case r1 of [] \<Rightarrow> [] | c # r2 \<Rightarrow>
                  if c = CHR ''.'' then takeWhile c_isdigit r2 else []);
          r3 = (case r1 of [] \<Rightarrow> [] | c # r2 \<Rightarrow>
                  if c = CHR ''.'' then dropWhile c_isdigit r2 else r1);
          ex = (case r3 of [] \<Rightarrow> 0 | c # r4 \<Rightarrow>
                  if c = CHR ''e'' \<or> c = CHR ''E'' then iso_atoi r4 else 0);
          mant = real_of_int (decimal 0 (ip @ fp)) / 10 ^ length fp;
          v = (if ex \<ge> 0 then mant * 10 ^ nat ex else mant / 10 ^ nat (- ex))
      in if ip = [] \<and> fp = [] then 0 else if neg then - v else v)"

definition iso_rand :: "32 word \<Rightarrow> int \<times> 32 word" where
  "iso_rand next = (let next = next * 1103515245 + 12345
                    in (int (unat (next div 65536) mod 32768), next))"

definition iso_libc :: "32 word libc" where
  "iso_libc = \<lparr>RAND_MAX = 32767, srand = (\<lambda>seed. seed), rand = iso_rand,
                atoi = iso_atoi, atof = iso_atof\<rparr>"

section \<open>The vocabulary of the specification\<close>

text \<open>The generator state after \<open>k\<close> calls of \<^verbatim>\<open>rand\<close>, and the raw draw of call \<open>k\<close>.\<close>

fun after_draws :: "'s libc \<Rightarrow> nat \<Rightarrow> 's \<Rightarrow> 's" where
  "after_draws L 0 g = g"
| "after_draws L (Suc k) g = after_draws L k (snd (rand L g))"

definition nth_draw :: "'s libc \<Rightarrow> nat \<Rightarrow> 's \<Rightarrow> int" where
  "nth_draw L k g = fst (rand L (after_draws L k g))"

text \<open>
  The two variates of step \<open>i\<close> of a run whose generator starts in \<open>g\<close>: each step
  takes four raw draws, two per variate.
\<close>

definition eta_x_at :: "'s libc \<Rightarrow> 's \<Rightarrow> nat \<Rightarrow> double" where
  "eta_x_at L g i = fst (normal_rand L (after_draws L (4 * i) g))"

definition eta_y_at :: "'s libc \<Rightarrow> 's \<Rightarrow> nat \<Rightarrow> double" where
  "eta_y_at L g i = fst (normal_rand L (after_draws L (4 * i + 2) g))"

text \<open>
  The per-step update in the words of the specification: the new velocity from the
  old one, and the new position from the old position and the new velocity.
\<close>

definition euler_maruyama ::
  "real \<Rightarrow> real \<Rightarrow> real \<Rightarrow> real \<Rightarrow> real \<Rightarrow> state \<Rightarrow> double \<Rightarrow> double \<Rightarrow> state \<Rightarrow> bool" where
  "euler_maruyama T m gamma kB dt old eta_x eta_y new =
     (vel_x new = vel_x old - Fin (gamma / m) * vel_x old * Fin dt
                    + c_sqrt (Fin (2 * gamma * kB * T / m)) * c_sqrt (Fin dt) * eta_x
      \<and> vel_y new = vel_y old - Fin (gamma / m) * vel_y old * Fin dt
                    + c_sqrt (Fin (2 * gamma * kB * T / m)) * c_sqrt (Fin dt) * eta_y
      \<and> pos_x new = pos_x old + vel_x new * Fin dt
      \<and> pos_y new = pos_y old + vel_y new * Fin dt)"

text \<open>The position update of strict explicit Euler, from the old velocity.\<close>

definition explicit_euler_position :: "real \<Rightarrow> state \<Rightarrow> state \<Rightarrow> bool" where
  "explicit_euler_position dt old new =
     (pos_x new = pos_x old + vel_x old * Fin dt \<and> pos_y new = pos_y old + vel_y old * Fin dt)"

text \<open>\<open>a \<le> b\<close> on doubles that are both finite.\<close>

fun finite_le :: "double \<Rightarrow> double \<Rightarrow> bool" where
  "finite_le (Fin a) (Fin b) = (a \<le> b)"
| "finite_le _ _ = False"

text \<open>
  A rejected run: nothing on standard output and a status other than 0.
\<close>

definition rejected :: "line list \<times> int \<Rightarrow> bool" where
  "rejected r = (fst r = [] \<and> snd r \<noteq> 0)"

section \<open>The generator: lemmas\<close>

lemma after_draws_add: "after_draws L k (after_draws L j g) = after_draws L (j + k) g"
  by (induction j arbitrary: g) simp_all

lemma uniform01_value:
  assumes "0 \<le> raw" and "raw \<le> rand_max"
  shows "uniform01 rand_max raw = Fin ((real_of_int raw + 1) / (real_of_int rand_max + 2))"
  using assms by (simp add: uniform01_def c_div_def)

lemma uniform01_bounds:
  assumes "0 \<le> raw" and "raw \<le> rand_max"
  shows "0 < (real_of_int raw + 1) / (real_of_int rand_max + 2)"
    and "(real_of_int raw + 1) / (real_of_int rand_max + 2) < 1"
    and "1 / (real_of_int rand_max + 2) \<le> (real_of_int raw + 1) / (real_of_int rand_max + 2)"
    and "(real_of_int raw + 1) / (real_of_int rand_max + 2) \<le> 1 - 1 / (real_of_int rand_max + 2)"
proof -
  have pos: "0 < real_of_int rand_max + 2" using assms by simp
  show "0 < (real_of_int raw + 1) / (real_of_int rand_max + 2)"
    using assms pos by simp
  show "(real_of_int raw + 1) / (real_of_int rand_max + 2) < 1"
    using assms pos by simp
  show "1 / (real_of_int rand_max + 2) \<le> (real_of_int raw + 1) / (real_of_int rand_max + 2)"
    using assms pos by (intro divide_right_mono) simp_all
  have "1 - 1 / (real_of_int rand_max + 2) = (real_of_int rand_max + 1) / (real_of_int rand_max + 2)"
    using pos by (simp add: field_simps)
  moreover have "(real_of_int raw + 1) / (real_of_int rand_max + 2)
      \<le> (real_of_int rand_max + 1) / (real_of_int rand_max + 2)"
    using assms pos by (intro divide_right_mono) simp_all
  ultimately show "(real_of_int raw + 1) / (real_of_int rand_max + 2)
      \<le> 1 - 1 / (real_of_int rand_max + 2)"
    by simp
qed

lemma normal_rand_state: "snd (normal_rand L g) = after_draws L 2 g"
  by (simp add: normal_rand_def split_def Let_def eval_nat_numeral)

lemma normal_rand_value:
  "fst (normal_rand L g) =
     c_sqrt (Fin (- 2) * c_log (uniform01 (RAND_MAX L) (nth_draw L 0 g)))
       * c_cos (Fin 2 * Fin pi * uniform01 (RAND_MAX L) (nth_draw L 1 g))"
  by (simp add: normal_rand_def split_def Let_def nth_draw_def)

lemma box_muller_finite:
  assumes "0 < u" and "u < 1"
  shows "c_sqrt (Fin (- 2) * c_log (Fin u)) * c_cos (Fin 2 * Fin pi * Fin v)
           = Fin (sqrt (- 2 * ln u) * cos (2 * pi * v))"
proof -
  have "ln u < 0" using assms by simp
  then have "\<not> - 2 * ln u < 0" by simp
  then show ?thesis using assms by simp
qed

lemma normal_rand_real:
  assumes "0 \<le> nth_draw L 0 g" and "nth_draw L 0 g \<le> RAND_MAX L"
    and "0 \<le> nth_draw L 1 g" and "nth_draw L 1 g \<le> RAND_MAX L"
  shows "fst (normal_rand L g) =
     Fin (sqrt (- 2 * ln ((real_of_int (nth_draw L 0 g) + 1) / (real_of_int (RAND_MAX L) + 2)))
          * cos (2 * pi * ((real_of_int (nth_draw L 1 g) + 1) / (real_of_int (RAND_MAX L) + 2))))"
proof -
  have u1: "uniform01 (RAND_MAX L) (nth_draw L 0 g)
      = Fin ((real_of_int (nth_draw L 0 g) + 1) / (real_of_int (RAND_MAX L) + 2))"
    using assms(1,2) by (rule uniform01_value)
  have u2: "uniform01 (RAND_MAX L) (nth_draw L 1 g)
      = Fin ((real_of_int (nth_draw L 1 g) + 1) / (real_of_int (RAND_MAX L) + 2))"
    using assms(3,4) by (rule uniform01_value)
  show ?thesis
    unfolding normal_rand_value u1 u2
    by (rule box_muller_finite) (rule uniform01_bounds [OF assms(1,2)])+
qed

lemma brownian_loop_step:
  assumes "n < n_steps"
  shows "brownian_loop L coeff1 coeff2 dt n_steps n g s =
           Row E15 (brownian_step coeff1 coeff2 dt s (eta_x_at L g 0) (eta_y_at L g 0))
           # brownian_loop L coeff1 coeff2 dt n_steps (n + 1) (after_draws L 4 g)
               (brownian_step coeff1 coeff2 dt s (eta_x_at L g 0) (eta_y_at L g 0))"
  using assms
  by (subst brownian_loop.simps)
     (simp add: split_def Let_def eta_x_at_def eta_y_at_def normal_rand_state eval_nat_numeral)

lemma brownian_loop_done:
  assumes "\<not> n < n_steps"
  shows "brownian_loop L coeff1 coeff2 dt n_steps n g s = []"
  using assms by (subst brownian_loop.simps) simp

lemma brownian_loop_rows:
  "brownian_loop L coeff1 coeff2 dt n_steps n g s =
     map (Row E15) (rows (brownian_loop L coeff1 coeff2 dt n_steps n g s))"
proof (induction k \<equiv> "nat (n_steps - n)" arbitrary: n g s)
  case 0
  then show ?case by (simp add: brownian_loop_done)
next
  case (Suc k)
  then have lt: "n < n_steps" and k: "k = nat (n_steps - (n + 1))" by linarith+
  show ?case
    unfolding brownian_loop_step [OF lt]
    using Suc.hyps(1) [OF k] by simp
qed

lemma brownian_loop_length:
  "length (rows (brownian_loop L coeff1 coeff2 dt n_steps n g s)) = nat (n_steps - n)"
proof (induction k \<equiv> "nat (n_steps - n)" arbitrary: n g s)
  case 0
  then show ?case by (simp add: brownian_loop_done)
next
  case (Suc k)
  then have lt: "n < n_steps" and k: "k = nat (n_steps - (n + 1))" by linarith+
  show ?case
    unfolding brownian_loop_step [OF lt]
    using Suc.hyps(1) [OF k] Suc.hyps(2) k by simp
qed

lemma brownian_loop_nth:
  assumes "i < nat (n_steps - n)"
  shows "(s # rows (brownian_loop L coeff1 coeff2 dt n_steps n g s)) ! Suc i =
           brownian_step coeff1 coeff2 dt
             ((s # rows (brownian_loop L coeff1 coeff2 dt n_steps n g s)) ! i)
             (eta_x_at L g i) (eta_y_at L g i)"
  using assms
proof (induction i arbitrary: n g s)
  case 0
  then have lt: "n < n_steps" by linarith
  show ?case unfolding brownian_loop_step [OF lt] by simp
next
  case (Suc i)
  then have lt: "n < n_steps" and i: "i < nat (n_steps - (n + 1))" by linarith+
  have shift: "eta_x_at L (after_draws L 4 g) i = eta_x_at L g (Suc i)"
    "eta_y_at L (after_draws L 4 g) i = eta_y_at L g (Suc i)"
    by (simp_all add: eta_x_at_def eta_y_at_def after_draws_add add.commute)
  show ?case
    unfolding brownian_loop_step [OF lt]
    using Suc.IH [OF i] by (simp add: shift)
qed

section \<open>The integrator: lemmas\<close>

lemma brownian_step_time:
  "time_of (brownian_step coeff1 coeff2 dt s eta_x eta_y) = time_of s + Fin dt"
  by (cases s) (simp add: Let_def)

lemma brownian_step_euler:
  assumes "m \<noteq> 0"
  shows "euler_maruyama T m gamma kB dt s eta_x eta_y
           (brownian_step (c_div gamma m) (c_sqrt (c_div (2 * gamma * kB * T) m)) dt s eta_x eta_y)"
  using assms by (cases s) (simp add: euler_maruyama_def c_div_def Let_def)

lemma brownian_loop_times:
  assumes "i \<le> nat (n_steps - n)" and "time_of s = Fin t0"
  shows "time_of ((s # rows (brownian_loop L coeff1 coeff2 dt n_steps n g s)) ! i)
           = Fin (t0 + real i * dt)"
  using assms(1)
proof (induction i)
  case 0
  then show ?case by (simp add: assms(2))
next
  case (Suc i)
  then have "i < nat (n_steps - n)" and "i \<le> nat (n_steps - n)" by simp_all
  then show ?case
    using Suc.IH by (simp only: brownian_loop_nth brownian_step_time) (simp add: algebra_simps)
qed

lemma langevin_loop_step:
  assumes "n < n_steps"
  shows "langevin_loop L coeff1 coeff2 dt n_steps n g p =
           Row F6 (langevin_row dt n (langevin_step coeff1 coeff2 dt p (eta_x_at L g 0) (eta_y_at L g 0)))
           # langevin_loop L coeff1 coeff2 dt n_steps (n + 1) (after_draws L 4 g)
               (langevin_step coeff1 coeff2 dt p (eta_x_at L g 0) (eta_y_at L g 0))"
  using assms
  by (subst langevin_loop.simps)
     (simp add: split_def Let_def eta_x_at_def eta_y_at_def normal_rand_state eval_nat_numeral)

lemma langevin_loop_done:
  assumes "\<not> n < n_steps"
  shows "langevin_loop L coeff1 coeff2 dt n_steps n g p = []"
  using assms by (subst langevin_loop.simps) simp

lemma langevin_step_brownian:
  "langevin_row dt n (langevin_step coeff1 (coeff2 * c_sqrt (Fin dt)) dt (x, y, vx, vy) eta_x eta_y)
     = brownian_step coeff1 coeff2 dt (Fin (real_of_int n * dt), x, y, vx, vy) eta_x eta_y"
  by (simp add: langevin_row_def Let_def algebra_simps)

lemma langevin_step_particle:
  "langevin_step coeff1 (coeff2 * c_sqrt (Fin dt)) dt (x, y, vx, vy) eta_x eta_y
     = particle_of (brownian_step coeff1 coeff2 dt (t, x, y, vx, vy) eta_x eta_y)"
  by (simp add: Let_def)

lemma particle_of_langevin_row: "particle_of (langevin_row dt n p) = p"
  by (cases p) (simp add: langevin_row_def)

lemma state_split: "s = (time_of s, particle_of s)"
  by (cases s) simp

lemma langevin_loop_particles:
  "map particle_of (rows (langevin_loop L coeff1 (coeff2 * c_sqrt (Fin dt)) dt n_steps n g p))
     = map particle_of (rows (brownian_loop L coeff1 coeff2 dt n_steps n g (t, p)))"
proof (induction k \<equiv> "nat (n_steps - n)" arbitrary: n g p t)
  case 0
  then show ?case by (simp add: langevin_loop_done brownian_loop_done)
next
  case (Suc k)
  then have lt: "n < n_steps" and k: "k = nat (n_steps - (n + 1))" by linarith+
  obtain x y vx vy where p: "p = (x, y, vx, vy)" by (cases p) blast
  define p' where "p' = langevin_step coeff1 (coeff2 * c_sqrt (Fin dt)) dt p (eta_x_at L g 0) (eta_y_at L g 0)"
  define s' where "s' = brownian_step coeff1 coeff2 dt (t, p) (eta_x_at L g 0) (eta_y_at L g 0)"
  have same: "particle_of s' = p'"
    unfolding s'_def p'_def p by (rule langevin_step_particle [symmetric])
  then have s': "s' = (time_of s', p')"
    using state_split [of s'] by simp
  have "map particle_of (rows (langevin_loop L coeff1 (coeff2 * c_sqrt (Fin dt)) dt n_steps (n + 1)
            (after_draws L 4 g) p'))
      = map particle_of (rows (brownian_loop L coeff1 coeff2 dt n_steps (n + 1)
            (after_draws L 4 g) s'))"
    using Suc.hyps(1) [OF k, of "after_draws L 4 g" p' "time_of s'"] s' by simp
  then show ?case
    unfolding langevin_loop_step [OF lt] brownian_loop_step [OF lt] p'_def [symmetric]
      s'_def [symmetric]
    by (simp add: particle_of_langevin_row same)
qed

lemma langevin_loop_format:
  "langevin_loop L coeff1 coeff2 dt n_steps n g p =
     map (Row F6) (rows (langevin_loop L coeff1 coeff2 dt n_steps n g p))"
proof (induction k \<equiv> "nat (n_steps - n)" arbitrary: n g p)
  case 0
  then show ?case by (simp add: langevin_loop_done)
next
  case (Suc k)
  then have lt: "n < n_steps" and k: "k = nat (n_steps - (n + 1))" by linarith+
  show ?case
    unfolding langevin_loop_step [OF lt]
    using Suc.hyps(1) [OF k] by simp
qed

lemma langevin_loop_brownian:
  "rows (langevin_loop L coeff1 (coeff2 * c_sqrt (Fin dt)) dt n_steps n g (x, y, vx, vy))
     = rows (brownian_loop L coeff1 coeff2 dt n_steps n g (Fin (real_of_int n * dt), x, y, vx, vy))"
proof (induction k \<equiv> "nat (n_steps - n)" arbitrary: n g x y vx vy)
  case 0
  then show ?case by (simp add: langevin_loop_done brownian_loop_done)
next
  case (Suc k)
  then have lt: "n < n_steps" and k: "k = nat (n_steps - (n + 1))" by linarith+
  obtain x' y' vx' vy' where p':
    "langevin_step coeff1 (coeff2 * c_sqrt (Fin dt)) dt (x, y, vx, vy) (eta_x_at L g 0) (eta_y_at L g 0)
       = (x', y', vx', vy')"
    by (cases "langevin_step coeff1 (coeff2 * c_sqrt (Fin dt)) dt (x, y, vx, vy)
                 (eta_x_at L g 0) (eta_y_at L g 0)") blast
  have s': "brownian_step coeff1 coeff2 dt (Fin (real_of_int n * dt), x, y, vx, vy)
              (eta_x_at L g 0) (eta_y_at L g 0)
            = (Fin (real_of_int (n + 1) * dt), x', y', vx', vy')"
    unfolding langevin_step_brownian [symmetric] p' by (simp add: langevin_row_def)
  show ?case
    unfolding langevin_loop_step [OF lt] brownian_loop_step [OF lt] p' s'
    using Suc.hyps(1) [OF k] by (simp add: langevin_row_def)
qed

lemma run_brownian_motion_rows:
  "rows (fst (run_brownian_motion L now T m gamma dt n_steps)) =
     origin # rows (brownian_loop L (c_div gamma m) (c_sqrt (c_div (2 * gamma * 1 * T) m)) dt
                      n_steps 0 (srand L (to_unsigned now)) origin)"
  by (simp add: run_brownian_motion_def Let_def origin_def)

lemma langevin_run_rows:
  "rows (fst (langevin_run L gamma kB T m dt n_steps argv)) =
     origin # rows (brownian_loop L (c_div gamma m) (c_sqrt (c_div (2 * gamma * kB * T) m)) dt
                      n_steps 0 (seed_state L (langevin_seed L argv)) origin)"
  using langevin_loop_brownian [of L "c_div gamma m" "c_sqrt (c_div (2 * gamma * kB * T) m)"
      dt n_steps 0 "seed_state L (langevin_seed L argv)" "Fin 0" "Fin 0" "Fin 0" "Fin 0"]
  by (simp add: langevin_run_def Let_def origin_def)

lemma brownian_motion_main_run:
  "brownian_motion_main L now argv =
     run_brownian_motion L now
       (if 2 \<le> length argv then atof L (argv ! 1) else 1)
       (if 3 \<le> length argv then atof L (argv ! 2) else 1)
       (if 4 \<le> length argv then atof L (argv ! 3) else 1)
       (if 5 \<le> length argv then atof L (argv ! 4) else 0.01)
       (if 6 \<le> length argv then atoi L (argv ! 5) else 1000)"
  by (simp add: brownian_motion_main_def run_brownian_motion_def Let_def origin_def)

lemma report1_main_brownian:
  assumes "\<not> (2 \<le> length argv \<and> argv ! 1 = ''normal_rand'')"
  shows "report1_main L now argv =
     run_brownian_motion L now
       (if 2 \<le> length argv then atof L (argv ! 1) else 1)
       (if 3 \<le> length argv then atof L (argv ! 2) else 1)
       (if 4 \<le> length argv then atof L (argv ! 3) else 1)
       (if 5 \<le> length argv then atof L (argv ! 4) else 0.01)
       (if 6 \<le> length argv then atoi L (argv ! 5) else 1000)"
  using assms by (auto simp: report1_main_def Let_def)

section \<open>The concrete library: lemmas\<close>

lemma draws_unfold:
  "nth_draw L 0 g = fst (rand L g)"
  "nth_draw L 1 g = fst (rand L (snd (rand L g)))"
  "after_draws L 2 g = snd (rand L (snd (rand L g)))"
  by (simp_all add: nth_draw_def eval_nat_numeral)

lemma iso_draws:
  "nth_draw iso_libc 0 1 = 16838" "nth_draw iso_libc 1 1 = 5758"
  "after_draws iso_libc 2 1 = 2524885223"
  unfolding draws_unfold by (simp_all add: iso_libc_def iso_rand_def)

section \<open>The programs: lemmas\<close>

lemma run_brownian_motion_rows_length:
  "length (rows (fst (run_brownian_motion L now T m gamma dt n_steps))) = nat n_steps + 1"
  by (simp add: run_brownian_motion_rows brownian_loop_length)

lemma langevin_run_particles:
  "map particle_of (rows (fst (langevin_run L gamma kB T m dt n_steps argv))) =
     map particle_of
       (origin # rows (brownian_loop L (c_div gamma m) (c_sqrt (c_div (2 * gamma * kB * T) m)) dt
                         n_steps 0 (seed_state L (langevin_seed L argv)) origin))"
  using langevin_loop_particles [of L "c_div gamma m" "c_sqrt (c_div (2 * gamma * kB * T) m)"
      dt n_steps 0 "seed_state L (langevin_seed L argv)" "(Fin 0, Fin 0, Fin 0, Fin 0)" "Fin 0"]
  by (simp add: langevin_run_def Let_def origin_def)

lemma langevin_run_rows_length:
  "length (rows (fst (langevin_run L gamma kB T m dt n_steps argv))) = nat n_steps + 1"
proof -
  have "length (map particle_of (rows (fst (langevin_run L gamma kB T m dt n_steps argv))))
      = nat n_steps + 1"
    unfolding langevin_run_particles by (simp add: brownian_loop_length)
  then show ?thesis by simp
qed

lemma langevin_run_first: "rows (fst (langevin_run L gamma kB T m dt n_steps argv)) ! 0 = origin"
  by (simp add: langevin_run_def Let_def origin_def)

lemma run_brownian_motion_output:
  "fst (run_brownian_motion L now T m gamma dt n_steps) =
     Header # map (Row E15) (rows (fst (run_brownian_motion L now T m gamma dt n_steps)))"
  using brownian_loop_rows [of L "c_div gamma m" "c_sqrt (c_div (2 * gamma * 1 * T) m)" dt
      n_steps 0 "srand L (to_unsigned now)" origin]
  by (simp add: run_brownian_motion_def Let_def origin_def)

lemma langevin_run_output:
  "fst (langevin_run L gamma kB T m dt n_steps argv) =
     Header # map (Row F6) (rows (fst (langevin_run L gamma kB T m dt n_steps argv)))"
  using langevin_loop_format [of L "c_div gamma m"
      "c_sqrt (c_div (2 * gamma * kB * T) m) * c_sqrt (Fin dt)" dt
      n_steps 0 "seed_state L (langevin_seed L argv)" "(Fin 0, Fin 0, Fin 0, Fin 0)"]
  by (simp add: langevin_run_def Let_def)

lemma singleton_rows:
  assumes "int (length xs) = 0 + 1" and "xs ! 0 = a"
  shows "xs = [a]"
  using assms by (cases xs) simp_all

lemma run_brownian_motion_nth:
  assumes "i < nat n_steps"
  shows "rows (fst (run_brownian_motion L now T m gamma dt n_steps)) ! Suc i =
           brownian_step (c_div gamma m) (c_sqrt (c_div (2 * gamma * 1 * T) m)) dt
             (rows (fst (run_brownian_motion L now T m gamma dt n_steps)) ! i)
             (eta_x_at L (srand L (to_unsigned now)) i) (eta_y_at L (srand L (to_unsigned now)) i)"
  unfolding run_brownian_motion_rows using assms by (intro brownian_loop_nth) simp

lemma euler_maruyama_particle:
  assumes "particle_of a = particle_of a'" and "particle_of b = particle_of b'"
  shows "euler_maruyama T m gamma kB dt a eta_x eta_y b
           = euler_maruyama T m gamma kB dt a' eta_x eta_y b'"
  using assms by (cases a; cases a'; cases b; cases b') (simp add: euler_maruyama_def)

lemma langevin_run_euler:
  assumes "m \<noteq> 0" and "i < nat n_steps"
  shows "euler_maruyama T m gamma kB dt
           (rows (fst (langevin_run L gamma kB T m dt n_steps argv)) ! i)
           (eta_x_at L (seed_state L (langevin_seed L argv)) i)
           (eta_y_at L (seed_state L (langevin_seed L argv)) i)
           (rows (fst (langevin_run L gamma kB T m dt n_steps argv)) ! Suc i)"
proof -
  let ?g = "seed_state L (langevin_seed L argv)"
  let ?lr = "rows (fst (langevin_run L gamma kB T m dt n_steps argv))"
  let ?br = "origin # rows (brownian_loop L (c_div gamma m)
                (c_sqrt (c_div (2 * gamma * kB * T) m)) dt n_steps 0 ?g origin)"
  have len: "length ?lr = nat n_steps + 1" "length ?br = nat n_steps + 1"
    by (simp_all add: langevin_run_rows_length brownian_loop_length)
  have same: "particle_of (?lr ! k) = particle_of (?br ! k)" if "k < nat n_steps + 1" for k
  proof -
    have "particle_of (?lr ! k) = map particle_of ?lr ! k"
      using that len(1) by simp
    also have "\<dots> = map particle_of ?br ! k"
      by (simp only: langevin_run_particles)
    also have "\<dots> = particle_of (?br ! k)"
      using that len(2) by (intro nth_map) simp
    finally show ?thesis .
  qed
  have step: "?br ! Suc i = brownian_step (c_div gamma m) (c_sqrt (c_div (2 * gamma * kB * T) m)) dt
      (?br ! i) (eta_x_at L ?g i) (eta_y_at L ?g i)"
    using assms(2) by (intro brownian_loop_nth) simp
  have br: "euler_maruyama T m gamma kB dt (?br ! i) (eta_x_at L ?g i) (eta_y_at L ?g i) (?br ! Suc i)"
    unfolding step by (rule brownian_step_euler [OF assms(1)])
  have old: "particle_of (?lr ! i) = particle_of (?br ! i)"
    and new: "particle_of (?lr ! Suc i) = particle_of (?br ! Suc i)"
    using assms(2) by (simp_all add: same)
  show ?thesis
    using br euler_maruyama_particle [OF old new, of T m gamma kB dt "eta_x_at L ?g i" "eta_y_at L ?g i"]
    by blast
qed

lemma post_update_velocity:
  "brownian_step (Fin 1) (Fin 1) 1 origin (Fin 1) (Fin 1) = (Fin 1, Fin 1, Fin 1, Fin 1, Fin 1)"
  "\<not> explicit_euler_position 1 origin (brownian_step (Fin 1) (Fin 1) 1 origin (Fin 1) (Fin 1))"
  by (simp_all add: origin_def explicit_euler_position_def Let_def)

lemmas iso_parse = iso_libc_def iso_atoi_def iso_atof_def strip_sign_def c_isspace_def c_isdigit_def

lemma run_brownian_motion_times:
  assumes "i \<le> nat n_steps"
  shows "time_of (rows (fst (run_brownian_motion L now T m gamma dt n_steps)) ! i) = Fin (real i * dt)"
  unfolding run_brownian_motion_rows
  using brownian_loop_times [of i n_steps 0 origin 0] assms by (simp add: origin_def)

lemma langevin_run_times:
  assumes "i \<le> nat n_steps"
  shows "time_of (rows (fst (langevin_run L gamma kB T m dt n_steps argv)) ! i) = Fin (real i * dt)"
  unfolding langevin_run_rows
  using brownian_loop_times [of i n_steps 0 origin 0] assms by (simp add: origin_def)

lemma iso_seed_7: "seed_state iso_libc (langevin_seed iso_libc [''langevin'', ''7''])
    = srand iso_libc (to_unsigned 7)"
  by (simp add: seed_state_def langevin_seed_def iso_parse)

lemma report1_zero_mass:
  "report1_main iso_libc 0 [''report1_haruki'', ''1'', ''0'', ''1'', ''0.01'', ''1'']
     = run_brownian_motion iso_libc 0 1 0 1 0.01 1"
  by (simp add: report1_main_def Let_def iso_parse)

lemma nonfinite_step:
  "brownian_step NonFinite NonFinite dt (Fin t, Fin x, Fin y, Fin vx, Fin vy) eta_x eta_y
     = (Fin (t + dt), NonFinite, NonFinite, NonFinite, NonFinite)"
  by (simp add: Let_def)

lemma run_zero_mass:
  "run_brownian_motion L now 1 0 1 dt 1 =
     ([Header, Row E15 origin, Row E15 (Fin dt, NonFinite, NonFinite, NonFinite, NonFinite)], 0)"
  by (simp add: run_brownian_motion_def Let_def c_div_def brownian_loop_step brownian_loop_done
      origin_def nonfinite_step)

section \<open>The claims\<close>

text \<open>
  C1. In every step of a run with \<open>m > 0\<close>, the new velocity is
  \<open>v - (gamma / m) * v * dt + sqrt (2 * gamma * kB * T / m) * sqrt dt * eta\<close> in each
  dimension, with the two variates the step has just drawn, and the new position is
  the old position plus the new velocity times \<open>dt\<close>. This holds between any two
  consecutive rows of \<^verbatim>\<open>run_brownian_motion\<close> (where \<open>kB = 1\<close>) and of the loop of
  langevin.c; \<open>brownian_motion_main_run\<close> carries it to brownian_motion.c, and
  \<open>post_update_velocity\<close> shows a step where the old velocity would give another
  position.
\<close>

theorem step_formula:
  assumes "0 < m" and "i < nat n_steps"
  shows "(let out = rows (fst (run_brownian_motion L now T m gamma dt n_steps));
              g = srand L (to_unsigned now)
          in euler_maruyama T m gamma 1 dt (out ! i) (eta_x_at L g i) (eta_y_at L g i) (out ! Suc i))
       \<and> (let out = rows (fst (langevin_run L gamma kB T m dt n_steps argv));
              g = seed_state L (langevin_seed L argv)
          in euler_maruyama T m gamma kB dt (out ! i) (eta_x_at L g i) (eta_y_at L g i) (out ! Suc i))"
proof -
  have m: "m \<noteq> 0" using assms(1) by simp
  show ?thesis
    unfolding Let_def run_brownian_motion_nth [OF assms(2)]
    by (intro conjI brownian_step_euler [OF m] langevin_run_euler [OF m assms(2)])
qed

theorem step_formula_witness:
  "(0::real) < 1 \<and> 1 < nat 2
   \<and> (let out = rows (fst (run_brownian_motion iso_libc 0 1 1 1 0.01 2));
          g = srand iso_libc (to_unsigned 0)
      in euler_maruyama 1 1 1 1 0.01 (out ! 1) (eta_x_at iso_libc g 1) (eta_y_at iso_libc g 1)
           (out ! Suc 1))
   \<and> (let out = rows (fst (langevin_run iso_libc 1 1 1 1 0.01 2 []));
          g = seed_state iso_libc (langevin_seed iso_libc [])
      in euler_maruyama 1 1 1 1 0.01 (out ! 1) (eta_x_at iso_libc g 1) (eta_y_at iso_libc g 1)
           (out ! Suc 1))"
proof -
  have h: "(0::real) < 1" "1 < nat 2" by simp_all
  show ?thesis
    using h step_formula [OF h, where L = iso_libc and now = 0 and T = 1 and gamma = 1
      and dt = "0.01" and kB = 1 and argv = "[]"]
    by simp
qed

text \<open>
  C2, as the code has it. No parameter is validated and no run is rejected: whatever
  \<open>T\<close>, \<open>m\<close>, \<open>gamma\<close>, \<open>dt\<close> and \<open>n_steps\<close> are, the simulation prints the header and
  the initial row \<open>(0, 0, 0, 0, 0)\<close>, then one row per step, and returns status 0, and
  so do the main functions of brownian_motion.c and report1_haruki.c on every
  argument vector. In particular a run with \<open>T = 0\<close> and positive \<open>m\<close>, \<open>gamma\<close>, \<open>dt\<close>
  and \<open>n_steps\<close> is accepted and completes: the header, \<open>n_steps + 1\<close> rows, status 0.
\<close>

theorem no_validation:
  "(let r = run_brownian_motion L now T m gamma dt n_steps in
      \<not> rejected r \<and> snd r = 0
      \<and> fst r = Header # map (Row E15) (rows (fst r))
      \<and> length (rows (fst r)) = nat n_steps + 1 \<and> rows (fst r) ! 0 = origin)
   \<and> (let r = brownian_motion_main L now argv in
      \<not> rejected r \<and> snd r = 0
      \<and> fst r = Header # map (Row E15) (rows (fst r)) \<and> rows (fst r) ! 0 = origin)
   \<and> (let r = report1_main L now argv in \<not> rejected r \<and> snd r = 0)
   \<and> (0 < m \<and> 0 < gamma \<and> 0 < dt \<and> 0 < n_steps \<longrightarrow>
       (let r = run_brownian_motion L now 0 m gamma dt n_steps in
          \<not> rejected r \<and> snd r = 0
          \<and> fst r = Header # map (Row E15) (rows (fst r))
          \<and> int (length (rows (fst r))) = n_steps + 1))"
proof -
  have run: "\<not> rejected (run_brownian_motion L now T' m' gamma' dt' n)
      \<and> snd (run_brownian_motion L now T' m' gamma' dt' n) = 0
      \<and> fst (run_brownian_motion L now T' m' gamma' dt' n)
          = Header # map (Row E15) (rows (fst (run_brownian_motion L now T' m' gamma' dt' n)))
      \<and> length (rows (fst (run_brownian_motion L now T' m' gamma' dt' n))) = nat n + 1
      \<and> rows (fst (run_brownian_motion L now T' m' gamma' dt' n)) ! 0 = origin"
    for T' m' gamma' dt' n
  proof -
    have "snd (run_brownian_motion L now T' m' gamma' dt' n) = 0"
      and "fst (run_brownian_motion L now T' m' gamma' dt' n) \<noteq> []"
      by (simp_all add: run_brownian_motion_def Let_def)
    moreover have "rows (fst (run_brownian_motion L now T' m' gamma' dt' n)) ! 0 = origin"
      by (simp add: run_brownian_motion_rows)
    ultimately show ?thesis
      using run_brownian_motion_output [of L now T' m' gamma' dt' n]
      by (simp add: rejected_def run_brownian_motion_rows_length)
  qed
  have sampler: "snd (run_normal_rand L now n) = 0" for n
    by (simp add: run_normal_rand_def Let_def)
  have report1: "snd (report1_main L now argv) = 0"
    using run [THEN conjunct2, THEN conjunct1] sampler
    by (simp add: report1_main_def Let_def)
  have count: "int (length (rows (fst (run_brownian_motion L now 0 m gamma dt n_steps)))) = n_steps + 1"
    if "0 < n_steps"
    using that by (simp add: run_brownian_motion_rows_length)
  show ?thesis
    unfolding Let_def brownian_motion_main_run
    using run report1 count by (simp add: rejected_def)
qed

theorem no_validation_witness:
  "(0::real) < 1 \<and> (0::real) < 0.01 \<and> (0::int) < 3
   \<and> \<not> rejected (run_brownian_motion iso_libc 0 0 1 1 0.01 3)
   \<and> snd (run_brownian_motion iso_libc 0 0 1 1 0.01 3) = 0
   \<and> int (length (rows (fst (run_brownian_motion iso_libc 0 0 1 1 0.01 3)))) = 3 + 1"
proof -
  have h: "(0::real) < 1" "(0::real) < 0.01" "(0::int) < 3" by simp_all
  note a = no_validation [where L = iso_libc and now = 0 and m = 1 and gamma = 1
      and dt = "0.01" and n_steps = 3, unfolded Let_def]
  from a h show ?thesis by blast
qed

text \<open>
  The claim as the specification states it fails: with \<open>m = 0\<close> the run is not
  rejected. It prints the header, the initial row and a row of non-finite values,
  and returns 0.
\<close>

theorem no_rejection_counterexample:
  "report1_main iso_libc 0 [''report1_haruki'', ''1'', ''0'', ''1'', ''0.01'', ''1'']
     = ([Header, Row E15 origin,
         Row E15 (Fin 0.01, NonFinite, NonFinite, NonFinite, NonFinite)], 0)
   \<and> \<not> rejected (report1_main iso_libc 0 [''report1_haruki'', ''1'', ''0'', ''1'', ''0.01'', ''1''])"
  unfolding report1_zero_mass run_zero_mass by (simp add: rejected_def)

text \<open>
  C3. Every call of \<^verbatim>\<open>normal_rand\<close> takes exactly two draws from the uniform source:
  it returns \<^verbatim>\<open>sqrt(-2 * log(u1)) * cos(2 * pi * u2)\<close> for the two mapped draws, and
  the only thing it changes is the state of the source, which is advanced by those
  two draws. When the draws lie in \<open>[0, RAND_MAX]\<close>, as \<^verbatim>\<open>rand\<close> promises, the result
  is the finite number \<open>sqrt (- 2 * ln u1) * cos (2 * pi * u2)\<close>.
\<close>

theorem normal_rand_two_draws:
  "(let u1 = uniform01 (RAND_MAX L) (nth_draw L 0 g);
        u2 = uniform01 (RAND_MAX L) (nth_draw L 1 g)
    in normal_rand L g
         = (c_sqrt (Fin (- 2) * c_log u1) * c_cos (Fin 2 * Fin pi * u2), after_draws L 2 g))
   \<and> (0 \<le> nth_draw L 0 g \<and> nth_draw L 0 g \<le> RAND_MAX L
        \<and> 0 \<le> nth_draw L 1 g \<and> nth_draw L 1 g \<le> RAND_MAX L \<longrightarrow>
      (let u1 = (real_of_int (nth_draw L 0 g) + 1) / (real_of_int (RAND_MAX L) + 2);
           u2 = (real_of_int (nth_draw L 1 g) + 1) / (real_of_int (RAND_MAX L) + 2)
       in normal_rand L g = (Fin (sqrt (- 2 * ln u1) * cos (2 * pi * u2)), after_draws L 2 g)))"
  unfolding Let_def
  using normal_rand_value [of L g] normal_rand_state [of L g] normal_rand_real [of L g]
  by (simp add: prod_eq_iff)

theorem normal_rand_two_draws_witness:
  "0 \<le> nth_draw iso_libc 0 1 \<and> nth_draw iso_libc 0 1 \<le> RAND_MAX iso_libc
   \<and> 0 \<le> nth_draw iso_libc 1 1 \<and> nth_draw iso_libc 1 1 \<le> RAND_MAX iso_libc
   \<and> normal_rand iso_libc 1 =
       (Fin (sqrt (- 2 * ln (16839 / 32769)) * cos (2 * pi * (5759 / 32769))), 2524885223)"
proof -
  have rm: "RAND_MAX iso_libc = 32767" by (simp add: iso_libc_def)
  have h: "0 \<le> nth_draw iso_libc 0 1 \<and> nth_draw iso_libc 0 1 \<le> RAND_MAX iso_libc
      \<and> 0 \<le> nth_draw iso_libc 1 1 \<and> nth_draw iso_libc 1 1 \<le> RAND_MAX iso_libc"
    unfolding iso_draws rm by simp
  from normal_rand_two_draws [of iso_libc 1, THEN conjunct2, rule_format, OF h] h
  show ?thesis
    unfolding iso_draws rm Let_def by simp
qed

text \<open>
  C4. For every raw draw in \<open>[0, RAND_MAX]\<close> the value
  \<open>(raw + 1) / (RAND_MAX + 2)\<close> lies strictly between 0 and 1, at a distance of at
  least \<open>1 / (RAND_MAX + 2)\<close> from both ends, so the logarithm of the Box-Muller
  transform is taken of a positive number and returns a finite value.
\<close>

theorem uniform01_strictly_inside:
  assumes "0 \<le> raw" and "raw \<le> rand_max"
  shows "let u = (real_of_int raw + 1) / (real_of_int rand_max + 2) in
           uniform01 rand_max raw = Fin u \<and> 0 < u \<and> u < 1
           \<and> 1 / (real_of_int rand_max + 2) \<le> u \<and> u \<le> 1 - 1 / (real_of_int rand_max + 2)
           \<and> c_log (uniform01 rand_max raw) = Fin (ln u)"
proof -
  note b = uniform01_bounds [OF assms]
  have "c_log (Fin ((real_of_int raw + 1) / (real_of_int rand_max + 2)))
          = Fin (ln ((real_of_int raw + 1) / (real_of_int rand_max + 2)))"
    using b(1) by simp
  then show ?thesis
    unfolding Let_def uniform01_value [OF assms] using b by blast
qed

theorem uniform01_strictly_inside_witness:
  "(0::int) \<le> 0 \<and> (0::int) \<le> 32767 \<and> uniform01 32767 0 = Fin (1 / 32769)
   \<and> c_log (uniform01 32767 0) = Fin (ln (1 / 32769))
   \<and> uniform01 32767 32767 = Fin (32768 / 32769)
   \<and> c_log (uniform01 32767 32767) = Fin (ln (32768 / 32769))"
  using uniform01_strictly_inside [of 0 32767] uniform01_strictly_inside [of 32767 32767]
  by (simp add: Let_def)

text \<open>
  C5. For every step count \<open>n_steps \<ge> 0\<close> the output is one header line followed
  by exactly \<open>n_steps + 1\<close> data rows, the first of them \<open>(0, 0, 0, 0, 0)\<close>; for
  \<open>n_steps = 0\<close> that is the header and the initial row alone. langevin.c, with its
  1000 steps, prints the header and 1001 rows.
\<close>

theorem trajectory_length:
  assumes "0 \<le> n_steps"
  shows "(let out = fst (run_brownian_motion L now T m gamma dt n_steps) in
            out = Header # map (Row E15) (rows out)
            \<and> int (length (rows out)) = n_steps + 1 \<and> rows out ! 0 = origin)
       \<and> (let out = fst (langevin_run L gamma kB T m dt n_steps argv) in
            out = Header # map (Row F6) (rows out)
            \<and> int (length (rows out)) = n_steps + 1 \<and> rows out ! 0 = origin)
       \<and> (let out = fst (langevin_main L argv) in
            out = Header # map (Row F6) (rows out)
            \<and> length (rows out) = 1000 + 1 \<and> rows out ! 0 = origin)"
proof -
  have "rows (fst (run_brownian_motion L now T m gamma dt n_steps)) ! 0 = origin"
    and "rows (fst (langevin_run L gamma' kB' T' m' dt' n argv)) ! 0 = origin"
    for gamma' kB' T' m' dt' n
    by (simp_all add: run_brownian_motion_rows langevin_run_first)
  moreover have "int (length (rows (fst (run_brownian_motion L now T m gamma dt n_steps)))) = n_steps + 1"
    and "int (length (rows (fst (langevin_run L gamma kB T m dt n_steps argv)))) = n_steps + 1"
    using assms by (simp_all add: run_brownian_motion_rows_length langevin_run_rows_length)
  moreover have "length (rows (fst (langevin_run L 1 1 1 1 0.01 1000 argv))) = 1000 + 1"
    by (simp add: langevin_run_rows_length)
  ultimately show ?thesis
    unfolding Let_def langevin_main_def
    using run_brownian_motion_output [of L now T m gamma dt n_steps]
      langevin_run_output [of L gamma kB T m dt n_steps argv]
      langevin_run_output [of L 1 1 1 1 "0.01" 1000 argv]
    by blast
qed

theorem trajectory_length_witness:
  "(0::int) \<le> 0
   \<and> fst (run_brownian_motion iso_libc 0 1 1 1 0.01 0) = [Header, Row E15 origin]
   \<and> fst (langevin_run iso_libc 1 1 1 1 0.01 0 []) = [Header, Row F6 origin]"
proof -
  have h: "(0::int) \<le> 0" by simp
  note t = trajectory_length [OF h, where L = iso_libc and now = 0 and T = 1 and m = 1
      and gamma = 1 and dt = "0.01" and kB = 1 and argv = "[]", unfolded Let_def]
  have "rows (fst (run_brownian_motion iso_libc 0 1 1 1 0.01 0)) = [origin]"
    using t by (intro singleton_rows) simp_all
  moreover have "rows (fst (langevin_run iso_libc 1 1 1 1 0.01 0 [])) = [origin]"
    using t by (intro singleton_rows) simp_all
  ultimately show ?thesis
    using t by simp
qed

text \<open>
  C6. Two runs of langevin.c whose seed arguments parse to the same integer print the
  same output, whatever else differs in their argument vectors. (langevin.c is the
  program that takes a seed; the other simulations seed from the clock.)
\<close>

theorem same_seed_same_trajectory:
  assumes "1 < length argv1" and "1 < length argv2"
    and "atoi L (argv1 ! 1) = atoi L (argv2 ! 1)"
  shows "langevin_main L argv1 = langevin_main L argv2"
  using assms by (simp add: langevin_main_def langevin_run_def langevin_seed_def Let_def)

theorem same_seed_same_trajectory_witness:
  "1 < length [''langevin'', ''42''] \<and> 1 < length [''./a.out'', '' +42'', ''x'']
   \<and> atoi iso_libc ([''langevin'', ''42''] ! 1) = atoi iso_libc ([''./a.out'', '' +42'', ''x''] ! 1)
   \<and> langevin_main iso_libc [''langevin'', ''42''] = langevin_main iso_libc [''./a.out'', '' +42'', ''x'']"
proof -
  have h: "1 < length [''langevin'', ''42'']" "1 < length [''./a.out'', '' +42'', ''x'']"
    "atoi iso_libc ([''langevin'', ''42''] ! 1) = atoi iso_libc ([''./a.out'', '' +42'', ''x''] ! 1)"
    by (simp_all add: iso_parse)
  from h same_seed_same_trajectory [OF h] show ?thesis by blast
qed

text \<open>
  C7. In every run the time of row \<open>i\<close> is \<open>i * dt\<close>, for every \<open>i\<close> up to the number
  of steps; it advances by \<open>dt\<close> from each row to the next, and it is non-decreasing
  for every \<open>dt \<ge> 0\<close>, so for every positive step size. report1_haruki.c and
  brownian_motion.c accumulate \<^verbatim>\<open>t += dt\<close> and langevin.c computes \<^verbatim>\<open>(n + 1) * dt\<close>; the
  embedding does not round, so the equality with \<open>i * dt\<close> is the claim's equality up
  to the floating-point rounding of the accumulation.
\<close>

theorem time_grid:
  assumes "j \<le> i" and "i \<le> nat n_steps"
  shows "(let out = rows (fst (run_brownian_motion L now T m gamma dt n_steps)) in
            time_of (out ! i) = Fin (real i * dt)
            \<and> (i < nat n_steps \<longrightarrow> time_of (out ! Suc i) = time_of (out ! i) + Fin dt)
            \<and> (0 \<le> dt \<longrightarrow> finite_le (time_of (out ! j)) (time_of (out ! i))))
       \<and> (let out = rows (fst (langevin_run L gamma kB T m dt n_steps argv)) in
            time_of (out ! i) = Fin (real i * dt)
            \<and> (i < nat n_steps \<longrightarrow> time_of (out ! Suc i) = time_of (out ! i) + Fin dt)
            \<and> (0 \<le> dt \<longrightarrow> finite_le (time_of (out ! j)) (time_of (out ! i))))"
proof -
  have mono: "finite_le (Fin (real j * dt)) (Fin (real i * dt))" if "0 \<le> dt"
    using that assms(1) by (simp add: mult_right_mono)
  have adv: "Fin (real (Suc i) * dt) = Fin (real i * dt) + Fin dt"
    by (simp add: algebra_simps)
  have le: "j \<le> nat n_steps" using assms by simp
  show ?thesis
    unfolding Let_def
    using assms(2) mono adv le
    by (auto simp: run_brownian_motion_times langevin_run_times simp del: of_nat_Suc)
qed

theorem time_grid_witness:
  "(1::nat) \<le> 2 \<and> (2::nat) \<le> nat 3 \<and> (2::nat) < nat 3 \<and> (0::real) \<le> 0.01
   \<and> time_of (rows (fst (run_brownian_motion iso_libc 0 1 1 1 0.01 3)) ! 2) = Fin (real 2 * 0.01)
   \<and> time_of (rows (fst (run_brownian_motion iso_libc 0 1 1 1 0.01 3)) ! Suc 2)
       = time_of (rows (fst (run_brownian_motion iso_libc 0 1 1 1 0.01 3)) ! 2) + Fin 0.01
   \<and> finite_le (time_of (rows (fst (run_brownian_motion iso_libc 0 1 1 1 0.01 3)) ! 1))
        (time_of (rows (fst (run_brownian_motion iso_libc 0 1 1 1 0.01 3)) ! 2))
   \<and> time_of (rows (fst (langevin_run iso_libc 1 1 1 1 0.01 3 [])) ! 2) = Fin (real 2 * 0.01)
   \<and> time_of (rows (fst (langevin_run iso_libc 1 1 1 1 0.01 3 [])) ! Suc 2)
       = time_of (rows (fst (langevin_run iso_libc 1 1 1 1 0.01 3 [])) ! 2) + Fin 0.01
   \<and> finite_le (time_of (rows (fst (langevin_run iso_libc 1 1 1 1 0.01 3 [])) ! 1))
        (time_of (rows (fst (langevin_run iso_libc 1 1 1 1 0.01 3 [])) ! 2))"
proof -
  have g: "(1::nat) \<le> 2" and h: "(2::nat) \<le> nat 3"
    and p: "(2::nat) < nat 3" "(0::real) \<le> 0.01"
    by simp_all
  note a = time_grid [OF g h, where L = iso_libc and now = 0 and T = 1 and m = 1 and gamma = 1
      and dt = "0.01" and kB = 1 and argv = "[]", unfolded Let_def]
  show ?thesis
    using g h p a by blast
qed

text \<open>
  C8. The step of langevin.c, whose \<open>coeff2\<close> already contains \<open>sqrt dt\<close>, and the
  step of report1_haruki.c and brownian_motion.c, which multiplies \<open>coeff2\<close> by
  \<open>sqrt dt\<close> in the loop, give the same new \<open>(x, y, vx, vy)\<close> for every state,
  parameters and variates: both compute \<open>(coeff2 * sqrt dt) * eta\<close>, operation for
  operation. Two runs started from the same generator state therefore print the same
  positions and velocities in every row. (The time column is not part of this
  statement: the noise coefficient does not enter it.)
\<close>

theorem variants_agree:
  "langevin_step (c_div gamma m) (c_sqrt (c_div (2 * gamma * kB * T) m) * c_sqrt (Fin dt)) dt
       (x, y, vx, vy) eta_x eta_y
     = particle_of (brownian_step (c_div gamma m) (c_sqrt (c_div (2 * gamma * kB * T) m)) dt
                      (t, x, y, vx, vy) eta_x eta_y)
   \<and> (seed_state L (langevin_seed L argv) = srand L (to_unsigned now) \<longrightarrow>
        map particle_of (rows (fst (langevin_run L gamma 1 T m dt n_steps argv)))
        = map particle_of (rows (fst (run_brownian_motion L now T m gamma dt n_steps))))"
proof (intro conjI impI)
  show "langevin_step (c_div gamma m) (c_sqrt (c_div (2 * gamma * kB * T) m) * c_sqrt (Fin dt)) dt
       (x, y, vx, vy) eta_x eta_y
     = particle_of (brownian_step (c_div gamma m) (c_sqrt (c_div (2 * gamma * kB * T) m)) dt
                      (t, x, y, vx, vy) eta_x eta_y)"
    by (rule langevin_step_particle)
next
  assume "seed_state L (langevin_seed L argv) = srand L (to_unsigned now)"
  then show "map particle_of (rows (fst (langevin_run L gamma 1 T m dt n_steps argv)))
        = map particle_of (rows (fst (run_brownian_motion L now T m gamma dt n_steps)))"
    using langevin_loop_particles [of L "c_div gamma m" "c_sqrt (c_div (2 * gamma * 1 * T) m)"
        dt n_steps 0 "srand L (to_unsigned now)" "(Fin 0, Fin 0, Fin 0, Fin 0)" "Fin 0"]
    by (simp add: langevin_run_def run_brownian_motion_def Let_def)
qed

theorem variants_agree_witness:
  "langevin_step (c_div 1 1) (c_sqrt (c_div (2 * 1 * 1 * 1) 1) * c_sqrt (Fin 0.01))
       0.01 (Fin 0, Fin 0, Fin 0, Fin 0) (Fin 1) (Fin (- 1))
     = particle_of (brownian_step (c_div 1 1) (c_sqrt (c_div (2 * 1 * 1 * 1) 1)) 0.01
         (Fin 5, Fin 0, Fin 0, Fin 0, Fin 0) (Fin 1) (Fin (- 1)))
   \<and> seed_state iso_libc (langevin_seed iso_libc [''langevin'', ''7''])
       = srand iso_libc (to_unsigned 7)
   \<and> map particle_of (rows (fst (langevin_main iso_libc [''langevin'', ''7''])))
     = map particle_of (rows (fst (run_brownian_motion iso_libc 7 1 1 1 0.01 1000)))"
proof -
  have main: "langevin_main iso_libc [''langevin'', ''7'']
      = langevin_run iso_libc 1 1 1 1 0.01 1000 [''langevin'', ''7'']"
    by (simp add: langevin_main_def)
  note a = variants_agree [where t = "Fin 5" and dt = "0.01" and gamma = 1 and m = 1
      and kB = 1 and T = 1 and x = "Fin 0" and y = "Fin 0" and vx = "Fin 0" and vy = "Fin 0"
      and eta_x = "Fin 1" and eta_y = "Fin (- 1)" and L = iso_libc
      and argv = "[''langevin'', ''7'']" and now = 7 and n_steps = 1000]
  from a iso_seed_7 show ?thesis
    unfolding main by blast
qed

text \<open>
  C9. The main function of normal_rand.c is defined exactly when \<open>argc \<ge> 2\<close>: then it
  prints \<open>atoi(argv[1])\<close> samples and returns 0. With no command-line argument
  (\<open>argc = 1\<close>) it passes the null pointer \<open>argv[1]\<close> to \<^verbatim>\<open>atoi\<close> before anything else
  happens; with an empty argument vector it reads past the end of \<open>argv\<close>.
\<close>

theorem argv1_unchecked:
  "(2 \<le> length argv \<longrightarrow>
      normal_rand_main L now argv
        = Inr (sample_loop L (atoi L (argv ! 1)) 0 (srand L (to_unsigned now)), 0))
   \<and> (length argv = 1 \<longrightarrow> normal_rand_main L now argv = Inl Null_dereference)
   \<and> (length argv = 0 \<longrightarrow> normal_rand_main L now argv = Inl Out_of_bounds_read)"
  by (simp add: normal_rand_main_def argv_read_def atoi_at_def Let_def)

theorem argv1_unchecked_witness:
  "2 \<le> length [''normal_rand'', ''0''] \<and> length [''normal_rand''] = 1 \<and> length ([] :: string list) = 0
   \<and> normal_rand_main iso_libc 0 [''normal_rand'', ''0''] = Inr ([], 0)
   \<and> normal_rand_main iso_libc 0 [''normal_rand''] = Inl Null_dereference
   \<and> normal_rand_main iso_libc 0 [] = Inl Out_of_bounds_read"
proof -
  have "atoi iso_libc ([''normal_rand'', ''0''] ! 1) = 0" by (simp add: iso_parse)
  then have "sample_loop iso_libc (atoi iso_libc ([''normal_rand'', ''0''] ! 1)) 0
      (srand iso_libc (to_unsigned 0)) = []"
    by (subst sample_loop.simps) simp
  then show ?thesis
    using argv1_unchecked [of "[''normal_rand'', ''0'']" iso_libc 0]
      argv1_unchecked [of "[''normal_rand'']" iso_libc 0]
      argv1_unchecked [of "[]" iso_libc 0]
    by simp
qed

text \<open>
  C10. In langevin.c a seed argument that parses to 0 leaves the generator unseeded,
  so the run prints what the run with no argument prints.
\<close>

theorem zero_seed_is_no_seed:
  assumes "1 < length argv" and "atoi L (argv ! 1) = 0" and "length argv0 \<le> 1"
  shows "langevin_main L argv = langevin_main L argv0
       \<and> seed_state L (langevin_seed L argv) = unseeded L"
  using assms by (simp add: langevin_main_def langevin_run_def langevin_seed_def seed_state_def Let_def)

theorem zero_seed_is_no_seed_witness:
  "atoi iso_libc ([''langevin'', ''0''] ! 1) = 0 \<and> atoi iso_libc ([''langevin'', ''abc''] ! 1) = 0
   \<and> langevin_main iso_libc [''langevin'', ''0''] = langevin_main iso_libc [''langevin'']
   \<and> langevin_main iso_libc [''langevin'', ''abc''] = langevin_main iso_libc [''langevin'']
   \<and> seed_state iso_libc (langevin_seed iso_libc [''langevin'', ''0'']) = unseeded iso_libc"
proof -
  have a: "1 < length [''langevin'', ''0'']" "atoi iso_libc ([''langevin'', ''0''] ! 1) = 0"
    and b: "1 < length [''langevin'', ''abc'']" "atoi iso_libc ([''langevin'', ''abc''] ! 1) = 0"
    and c: "length [''langevin''] \<le> 1"
    by (simp_all add: iso_parse)
  from a b zero_seed_is_no_seed [OF a c] zero_seed_is_no_seed [OF b c] show ?thesis by blast
qed

end
